theory Spec2Isabelle
  imports Complex_Main
begin

section \<open>Python values, configuration objects and exceptions\<close>

text \<open>
  The configuration \<open>cfg\<close> is a Python module object: a finite set of named attributes.
  It is modelled as a map from attribute names to values. The values that occur in
  \<open>online_microstates.py\<close> are \<open>None\<close>, strings, integers and floats; floats are modelled
  as reals (only their order is used by the code).
\<close>

datatype pyval = PNone | PStr string | PInt int | PFloat real

type_synonym config = "string \<rightharpoonup> pyval"

datatype exn =
    RuntimeError
  | AttributeError string
  | UnboundLocalError string
  | TypeError
  | IndexError

definition hasattr :: "config \<Rightarrow> string \<Rightarrow> bool" where
  "hasattr cfg key = (cfg key \<noteq> None)"

definition setattr :: "config \<Rightarrow> string \<Rightarrow> pyval \<Rightarrow> config" where
  "setattr cfg key v = cfg(key \<mapsto> v)"

definition getattr :: "config \<Rightarrow> string \<Rightarrow> exn + pyval" where
  "getattr cfg key = (case cfg key of None \<Rightarrow> Inl (AttributeError key) | Some v \<Rightarrow> Inr v)"

text \<open>Ordering comparison of a float with a configuration value: numbers compare,
  \<open>None\<close> and strings raise \<open>TypeError\<close>.\<close>

fun as_number :: "pyval \<Rightarrow> real option" where
  "as_number (PInt i) = Some (of_int i)"
| "as_number (PFloat r) = Some r"
| "as_number PNone = None"
| "as_number (PStr s) = None"

section \<open>Observable events\<close>

text \<open>
  Calls into the logger, the stream library, \<open>time.sleep\<close> and the timers are effects on
  the outside world. They are recorded, in program order, in a trace of events.
  \<open>Process ts\<close> marks control reaching the placeholder of the per-window code
  (\<open>ADD YOUR CODE HERE\<close>) with a window whose timestamps are \<open>ts\<close>.
\<close>

datatype level = WARNING | ERROR

datatype message =
    Required string
  | SettingUndefined string pyval
  | DelayReceiving

datatype event =
    Log level message
  | RedirectStdout
  | SearchLSL bool
  | Connect pyval pyval pyval pyval
  | GetSampleRate
  | GetTriggerChannel
  | Acquire
  | GetWindow
  | Process "real list"
  | Sleep real
  | SleepAtLeast pyval

section \<open>check_config\<close>

definition critical_vars_COMMON :: "string list" where
  "critical_vars_COMMON = [''DATA_PATH'']"

definition optional_vars :: "(string \<times> pyval) list" where
  "optional_vars =
     [(''AMP_NAME'', PNone),
      (''AMP_SERIAL'', PNone),
      (''GLOBAL_TIME'', PFloat (1.0 * 60)),
      (''NJOBS'', PInt 1)]"

text \<open>The first loop: the first missing key logs an error and raises.\<close>

fun check_critical :: "string list \<Rightarrow> config \<Rightarrow> (exn + unit) \<times> event list" where
  "check_critical [] cfg = (Inr (), [])"
| "check_critical (key # keys) cfg =
     (if \<not> hasattr cfg key then (Inl RuntimeError, [Log ERROR (Required key)])
      else check_critical keys cfg)"

text \<open>The second loop, threading the configuration object and the log. The logged
  value is \<open>getattr(cfg, key)\<close> read back after \<open>setattr\<close>.\<close>

fun set_optional :: "(string \<times> pyval) list \<Rightarrow> config \<times> event list \<Rightarrow> config \<times> event list" where
  "set_optional [] w = w"
| "set_optional ((key, dflt) # rest) (cfg, lg) =
     (if \<not> hasattr cfg key then
        (let cfg' = setattr cfg key dflt in
         case getattr cfg' key of
           Inr v \<Rightarrow> set_optional rest (cfg', lg @ [Log WARNING (SettingUndefined key v)])
         | Inl e \<Rightarrow> set_optional rest (cfg', lg))
      else set_optional rest (cfg, lg))"

text \<open>The result is the normal or exceptional completion, the configuration object as it
  is left (Python mutates it in place), and what was logged.\<close>

definition check_config :: "config \<Rightarrow> (exn + unit) \<times> config \<times> event list" where
  "check_config cfg =
     (case check_critical critical_vars_COMMON cfg of
        (Inl e, lg) \<Rightarrow> (Inl e, cfg, lg)
      | (Inr u, lg) \<Rightarrow>
          (case set_optional optional_vars (cfg, lg) of
             (cfg', lg') \<Rightarrow> (Inr (), cfg', lg')))"

section \<open>find_lsl_stream and connect_lsl_stream\<close>

text \<open>
  \<open>pu.search_lsl\<close> belongs to the stream library; its answer \<open>found\<close> is an input of the
  model and the call is recorded with its \<open>ignore_markers\<close> flag.
\<close>

definition find_lsl_stream ::
  "config \<Rightarrow> pyval \<times> pyval \<Rightarrow> exn + ((pyval \<times> pyval) \<times> event list)" where
  "find_lsl_stream cfg found =
     (case getattr cfg ''AMP_NAME'' of
        Inl e \<Rightarrow> Inl e
      | Inr n \<Rightarrow>
          if n = PNone then
            (case getattr cfg ''AMP_SERIAL'' of
               Inl e \<Rightarrow> Inl e
             | Inr s \<Rightarrow>
                 if s = PNone then Inr (found, [SearchLSL True])
                 else Inr ((n, s), []))
          else
            (case getattr cfg ''AMP_SERIAL'' of
               Inl e \<Rightarrow> Inl e
             | Inr s \<Rightarrow> Inr ((n, s), [])))"

text \<open>\<open>Connect w b serial name\<close> is the construction of the \<open>StreamReceiver\<close>.\<close>

definition connect_lsl_stream :: "config \<Rightarrow> pyval \<Rightarrow> pyval \<Rightarrow> exn + event" where
  "connect_lsl_stream cfg amp_name amp_serial =
     (case getattr cfg ''WINDOWSIZE'' of
        Inl e \<Rightarrow> Inl e
      | Inr w \<Rightarrow>
          (case getattr cfg ''STREAMBUFFER'' of
             Inl e \<Rightarrow> Inl e
           | Inr b \<Rightarrow> Inr (Connect w b amp_serial amp_name)))"

section \<open>run\<close>

text \<open>
  How a call of \<open>run\<close> ends: it returns, it leaves through \<open>sys.exit\<close>, it raises, or the
  finite script of observations below is used up while it is still running.
\<close>

datatype outcome = Returned | Exited int | Raised exn | Pending

text \<open>The exit status of the interpreter when \<open>run\<close> is its last call: 0 after a return,
  the low byte of the argument of \<open>sys.exit\<close>, 1 after an uncaught exception.\<close>

fun exit_status :: "outcome \<Rightarrow> int option" where
  "exit_status Returned = Some 0"
| "exit_status (Exited n) = Some (n mod 256)"
| "exit_status (Raised e) = Some 1"
| "exit_status Pending = None"

text \<open>
  The local state of the main loop: \<open>last_ts\<close> is \<open>None\<close> while the name is unbound.
\<close>

record loop_state =
  last_ts :: "real option"
  trace :: "event list"

text \<open>
  What one pass of the main loop observes from outside: the gate \<open>state.value\<close>, the
  reading of \<open>global_timer.sec()\<close> and the timestamps \<open>tslist\<close> of \<open>sr.get_window()\<close>.
  The samples of the window do not influence the control flow and are left out.
\<close>

record obs =
  gate_val :: int
  sec :: real
  tslist :: "real list"

text \<open>The loop condition \<open>state.value == 1 and global_timer.sec() < cfg.GLOBAL_TIME\<close>.\<close>

definition loop_cond :: "config \<Rightarrow> obs \<Rightarrow> exn + bool" where
  "loop_cond cfg ob =
     (if gate_val ob = 1 then
        (case getattr cfg ''GLOBAL_TIME'' of
           Inl e \<Rightarrow> Inl e
         | Inr v \<Rightarrow>
             (case as_number v of
                None \<Rightarrow> Inl TypeError
              | Some gt \<Rightarrow> Inr (sec ob < gt)))
      else Inr False)"

text \<open>\<open>np.where(np.array(tslist) > last_ts)[0]\<close>: the indices of the newer timestamps.\<close>

definition tsnew :: "real list \<Rightarrow> real \<Rightarrow> nat list" where
  "tsnew ts l = filter (\<lambda>i. ts ! i > l) [0..<length ts]"

definition loop_body :: "config \<Rightarrow> obs \<Rightarrow> loop_state \<Rightarrow> (exn + unit) \<times> loop_state" where
  "loop_body cfg ob st =
     (let st1 = st\<lparr>trace := trace st @ [Acquire, GetWindow]\<rparr> in
      case last_ts st1 of
        None \<Rightarrow> (Inl (UnboundLocalError ''last_ts''), st1)
      | Some l \<Rightarrow>
          if length (tsnew (tslist ob) l) = 0 then
            (Inr (), st1\<lparr>trace := trace st1 @ [Log WARNING DelayReceiving, Sleep 1]\<rparr>)
          else
            (let st2 = st1\<lparr>trace := trace st1 @ [Process (tslist ob)]\<rparr> in
             case tslist ob of
               [] \<Rightarrow> (Inl IndexError, st2)
             | t # ts \<Rightarrow>
                 (let st3 = st2\<lparr>last_ts := Some (last (t # ts))\<rparr> in
                  case getattr cfg ''TIMER_SLEEP'' of
                    Inl e \<Rightarrow> (Inl e, st3)
                  | Inr v \<Rightarrow> (Inr (), st3\<lparr>trace := trace st3 @ [SleepAtLeast v]\<rparr>))))"

fun main_loop :: "config \<Rightarrow> obs list \<Rightarrow> loop_state \<Rightarrow> outcome \<times> loop_state" where
  "main_loop cfg [] st = (Pending, st)"
| "main_loop cfg (ob # obs) st =
     (case loop_cond cfg ob of
        Inl e \<Rightarrow> (Raised e, st)
      | Inr False \<Rightarrow> (Returned, st)
      | Inr True \<Rightarrow>
          (case loop_body cfg ob st of
             (Inl e, st') \<Rightarrow> (Raised e, st')
           | (Inr u, st') \<Rightarrow> main_loop cfg obs st'))"

text \<open>
  The environment of a run: the successive readings of the gate before the main loop
  (\<open>start_reads\<close>), the answer of the stream search, and the observations of the passes
  of the main loop.
\<close>

record environment =
  start_reads :: "int list"
  found_stream :: "pyval \<times> pyval"
  iterations :: "obs list"

text \<open>\<open>while state.value == 2: pass\<close>: the readings left once a reading differs from 2,
  or \<open>None\<close> when every scripted reading is 2.\<close>

fun await_start :: "int list \<Rightarrow> int list option" where
  "await_start [] = None"
| "await_start (g # gs) = (if g = 2 then await_start gs else Some gs)"

definition entry_state :: loop_state where
  "entry_state = \<lparr>last_ts = None, trace = [RedirectStdout]\<rparr>"

text \<open>Everything after the check of the gate: stream search, connection, main loop.\<close>

definition main_phase :: "config \<Rightarrow> environment \<Rightarrow> outcome \<times> loop_state" where
  "main_phase cfg env =
     (case find_lsl_stream cfg (found_stream env) of
        Inl e \<Rightarrow> (Raised e, entry_state)
      | Inr ((amp_name, amp_serial), evs) \<Rightarrow>
          (let st = entry_state\<lparr>trace := trace entry_state @ evs\<rparr> in
           case connect_lsl_stream cfg amp_name amp_serial of
             Inl e \<Rightarrow> (Raised e, st)
           | Inr ev \<Rightarrow>
               main_loop cfg (iterations env)
                 (st\<lparr>trace := trace st @ [ev, GetSampleRate, GetTriggerChannel]\<rparr>)))"

definition run :: "config \<Rightarrow> environment \<Rightarrow> outcome \<times> loop_state" where
  "run cfg env =
     (case await_start (start_reads env) of
        None \<Rightarrow> (Pending, entry_state)
      | Some [] \<Rightarrow> (Pending, entry_state)
      | Some (g # gs) \<Rightarrow>
          if g = 0 then (Exited (- 1), entry_state)
          else main_phase cfg env)"

text \<open>The windows that reached the per-window code, in order.\<close>

fun processed :: "event list \<Rightarrow> real list list" where
  "processed [] = []"
| "processed (Process ts # evs) = ts # processed evs"
| "processed (ev # evs) = processed evs"

section \<open>Notions used to state the properties\<close>


section \<open>Concrete configurations and environments\<close>

definition cfg_partial :: config where
  "cfg_partial = [''DATA_PATH'' \<mapsto> PStr ''/data'', ''NJOBS'' \<mapsto> PInt 4]"

definition cfg_no_path :: config where
  "cfg_no_path = [''NJOBS'' \<mapsto> PInt 4]"

definition cfg_name_only :: config where
  "cfg_name_only = [''AMP_NAME'' \<mapsto> PStr ''openvibe'', ''AMP_SERIAL'' \<mapsto> PNone]"

definition cfg_both :: config where
  "cfg_both = [''AMP_NAME'' \<mapsto> PStr ''openvibe'', ''AMP_SERIAL'' \<mapsto> PStr ''0001'']"

definition cfg_no_amp :: config where
  "cfg_no_amp =
     [''DATA_PATH'' \<mapsto> PStr ''/data'', ''AMP_NAME'' \<mapsto> PNone, ''AMP_SERIAL'' \<mapsto> PNone]"

definition cfg_session :: config where
  "cfg_session =
     [''DATA_PATH'' \<mapsto> PStr ''/data'',
      ''AMP_NAME'' \<mapsto> PStr ''fake'',
      ''AMP_SERIAL'' \<mapsto> PStr ''0001'',
      ''GLOBAL_TIME'' \<mapsto> PFloat 0.2,
      ''NJOBS'' \<mapsto> PInt 1,
      ''TIMER_SLEEP'' \<mapsto> PFloat 0.05,
      ''WINDOWSIZE'' \<mapsto> PFloat 0.5,
      ''STREAMBUFFER'' \<mapsto> PFloat 1]"

definition pass :: "int \<Rightarrow> real \<Rightarrow> real list \<Rightarrow> obs" where
  "pass g s ts = \<lparr>gate_val = g, sec = s, tslist = ts\<rparr>"

text \<open>The gate reads Run throughout, every window is newer than the one before, and
  the clock reaches the global time at the fifth check.\<close>

definition env_session :: environment where
  "env_session =
     \<lparr>start_reads = [1, 1],
      found_stream = (PNone, PNone),
      iterations =
        [pass 1 0 [1, 2], pass 1 0.05 [3, 4], pass 1 0.1 [5, 6],
         pass 1 0.15 [7, 8], pass 1 0.2 [9, 10]]\<rparr>"

text \<open>The operator arms the session after two polls of the gate.\<close>

definition env_armed_late :: environment where
  "env_armed_late =
     \<lparr>start_reads = [2, 2, 1, 1],
      found_stream = (PNone, PNone),
      iterations = [pass 1 0 [1, 2], pass 1 0.05 [3, 4]]\<rparr>"

text \<open>The operator stops the session while it is still waiting.\<close>

definition env_never_armed :: environment where
  "env_never_armed =
     \<lparr>start_reads = [2, 2, 0, 0],
      found_stream = (PNone, PNone),
      iterations = [pass 1 0 [1, 2]]\<rparr>"

text \<open>The operator never arms the session within the script.\<close>

definition env_waiting :: environment where
  "env_waiting =
     \<lparr>start_reads = [2, 2, 2],
      found_stream = (PNone, PNone),
      iterations = [pass 1 0 [1, 2]]\<rparr>"



text \<open>A loop state in which \<open>last_ts\<close> is bound.\<close>

definition st_bound :: "real \<Rightarrow> loop_state" where
  "st_bound l = \<lparr>last_ts = Some l, trace = []\<rparr>"

section \<open>Lemmas on check_config\<close>

lemma set_optional_Cons:
  "set_optional ((k, d) # rest) (cfg, lg) =
     (if hasattr cfg k then set_optional rest (cfg, lg)
      else set_optional rest (setattr cfg k d, lg @ [Log WARNING (SettingUndefined k d)]))"
  by (simp add: getattr_def setattr_def Let_def)

lemma hasattr_setattr: "hasattr (setattr cfg k d) key \<longleftrightarrow> key = k \<or> hasattr cfg key"
  by (simp add: hasattr_def setattr_def)

lemma setattr_apply: "setattr cfg k d key = (if key = k then Some d else cfg key)"
  by (simp add: setattr_def)

lemma set_optional_log_grows:
  "\<exists>more. snd (set_optional kvs (cfg, lg)) = lg @ more"
proof (induction kvs arbitrary: cfg lg)
  case Nil
  then show ?case by simp
next
  case (Cons kv kvs)
  obtain k d where kv: "kv = (k, d)" by (cases kv)
  show ?case
  proof (cases "hasattr cfg k")
    case True
    then show ?thesis using Cons.IH [of cfg lg] kv by (simp only: set_optional_Cons if_True)
  next
    case False
    obtain more where
      "snd (set_optional kvs (setattr cfg k d, lg @ [Log WARNING (SettingUndefined k d)]))
        = (lg @ [Log WARNING (SettingUndefined k d)]) @ more"
      using Cons.IH by blast
    then show ?thesis using False kv by (simp add: set_optional_Cons del: set_optional.simps)
  qed
qed

lemma set_optional_keeps:
  "hasattr cfg key \<Longrightarrow> fst (set_optional kvs (cfg, lg)) key = cfg key"
proof (induction kvs arbitrary: cfg lg)
  case Nil
  then show ?case by simp
next
  case (Cons kv kvs)
  obtain k d where kv: "kv = (k, d)" by (cases kv)
  show ?case
  proof (cases "hasattr cfg k")
    case True
    then show ?thesis using Cons kv by (simp add: set_optional_Cons del: set_optional.simps)
  next
    case False
    then have ne: "key \<noteq> k" using Cons.prems by auto
    have h: "hasattr (setattr cfg k d) key"
      using Cons.prems by (simp add: hasattr_setattr)
    have "fst (set_optional kvs (setattr cfg k d, lg @ [Log WARNING (SettingUndefined k d)])) key
          = setattr cfg k d key"
      by (rule Cons.IH [OF h])
    then show ?thesis using False kv ne
      by (simp add: set_optional_Cons setattr_apply del: set_optional.simps)
  qed
qed

lemma set_optional_sets:
  "(key, dflt) \<in> set kvs \<Longrightarrow> distinct (map fst kvs) \<Longrightarrow> \<not> hasattr cfg key \<Longrightarrow>
   fst (set_optional kvs (cfg, lg)) key = Some dflt \<and>
   Log WARNING (SettingUndefined key dflt) \<in> set (snd (set_optional kvs (cfg, lg)))"
proof (induction kvs arbitrary: cfg lg)
  case Nil
  then show ?case by simp
next
  case (Cons kv kvs)
  obtain k d where kv: "kv = (k, d)" by (cases kv)
  show ?case
  proof (cases "k = key")
    case True
    then have d: "d = dflt" using Cons.prems kv by (auto simp: image_iff)
    let ?cfg = "setattr cfg key dflt"
    let ?lg = "lg @ [Log WARNING (SettingUndefined key dflt)]"
    have h: "hasattr ?cfg key" by (simp add: hasattr_setattr)
    have 1: "fst (set_optional kvs (?cfg, ?lg)) key = Some dflt"
      using set_optional_keeps [OF h, of kvs ?lg] by (simp add: setattr_apply)
    obtain more where 2: "snd (set_optional kvs (?cfg, ?lg)) = ?lg @ more"
      using set_optional_log_grows by blast
    show ?thesis using True d kv Cons.prems(3) 1 2
      by (simp add: set_optional_Cons del: set_optional.simps)
  next
    case False
    then have mem: "(key, dflt) \<in> set kvs" and dist: "distinct (map fst kvs)"
      using Cons.prems kv by auto
    have nh: "\<not> hasattr (setattr cfg k d) key"
      using Cons.prems(3) False by (simp add: hasattr_setattr)
    show ?thesis
      using kv Cons.IH [OF mem dist Cons.prems(3)] Cons.IH [OF mem dist nh]
      by (simp add: set_optional_Cons del: set_optional.simps)
  qed
qed

lemma set_optional_warns_missing:
  "Log WARNING (SettingUndefined key v) \<in> set (snd (set_optional kvs (cfg, lg))) \<Longrightarrow>
   Log WARNING (SettingUndefined key v) \<in> set lg \<or> (\<not> hasattr cfg key \<and> (key, v) \<in> set kvs)"
proof (induction kvs arbitrary: cfg lg)
  case Nil
  then show ?case by simp
next
  case (Cons kv kvs)
  obtain k d where kv: "kv = (k, d)" by (cases kv)
  show ?case
  proof (cases "hasattr cfg k")
    case True
    then have "Log WARNING (SettingUndefined key v) \<in> set (snd (set_optional kvs (cfg, lg)))"
      using Cons.prems kv by (simp add: set_optional_Cons del: set_optional.simps)
    from Cons.IH [OF this] show ?thesis using kv by auto
  next
    case False
    from Cons.prems kv False
    have "Log WARNING (SettingUndefined key v)
            \<in> set (snd (set_optional kvs (setattr cfg k d, lg @ [Log WARNING (SettingUndefined k d)])))"
      by (simp add: set_optional_Cons del: set_optional.simps)
    from Cons.IH [OF this] show ?thesis using False kv
      by (auto simp: hasattr_setattr)
  qed
qed

lemma check_critical_COMMON:
  "check_critical critical_vars_COMMON cfg =
     (if hasattr cfg ''DATA_PATH'' then (Inr (), [])
      else (Inl RuntimeError, [Log ERROR (Required ''DATA_PATH'')]))"
  by (simp add: critical_vars_COMMON_def)

lemma check_config_ok:
  "hasattr cfg ''DATA_PATH'' \<Longrightarrow>
   check_config cfg =
     (Inr (), fst (set_optional optional_vars (cfg, [])), snd (set_optional optional_vars (cfg, [])))"
  by (simp add: check_config_def check_critical_COMMON split: prod.splits)

lemma check_config_raise:
  "\<not> hasattr cfg ''DATA_PATH'' \<Longrightarrow>
   check_config cfg = (Inl RuntimeError, cfg, [Log ERROR (Required ''DATA_PATH'')])"
  by (simp add: check_config_def check_critical_COMMON)

lemma optional_vars_distinct: "distinct (map fst optional_vars)"
  by (simp add: optional_vars_def)

section \<open>Lemmas on the main loop\<close>

lemma processed_append: "processed (xs @ ys) = processed xs @ processed ys"
  by (induction xs rule: processed.induct) simp_all

lemma loop_cond_True:
  "loop_cond cfg ob = Inr True \<longleftrightarrow>
     gate_val ob = 1 \<and> (\<exists>v gt. getattr cfg ''GLOBAL_TIME'' = Inr v \<and> as_number v = Some gt \<and> sec ob < gt)"
  by (auto simp: loop_cond_def split: sum.splits option.splits)

lemma loop_body_unbound:
  "last_ts st = None \<Longrightarrow>
   loop_body cfg ob st =
     (Inl (UnboundLocalError ''last_ts''), st\<lparr>trace := trace st @ [Acquire, GetWindow]\<rparr>)"
  by (simp add: loop_body_def)

lemma main_loop_stops:
  "loop_cond cfg ob = Inr False \<Longrightarrow> main_loop cfg (ob # obs) st = (Returned, st)"
  by simp

lemma main_loop_unbound:
  "loop_cond cfg ob = Inr True \<Longrightarrow> last_ts st = None \<Longrightarrow>
   main_loop cfg (ob # obs) st =
     (Raised (UnboundLocalError ''last_ts''), st\<lparr>trace := trace st @ [Acquire, GetWindow]\<rparr>)"
  by (simp add: loop_body_unbound)

lemma await_start_polls:
  "await_start (replicate n 2 @ gs) = await_start gs"
  by (induction n) simp_all

lemma await_start_all_wait: "await_start (replicate n 2) = None"
  by (induction n) simp_all

lemma run_after_await:
  "start_reads env = replicate n 2 @ x # g # rest \<Longrightarrow> x \<noteq> 2 \<Longrightarrow>
   run cfg env = (if g = 0 then (Exited (- 1), entry_state) else main_phase cfg env)"
  by (simp add: run_def await_start_polls)

lemma main_loop_no_exit: "fst (main_loop cfg obs st) \<noteq> Exited n"
proof (induction obs arbitrary: st)
  case Nil
  then show ?case by simp
next
  case (Cons ob obs)
  then show ?case by (simp split: sum.splits bool.splits prod.splits)
qed








section \<open>The claims\<close>

subsection \<open>The first pass of the main loop\<close>

text \<open>
  C1. Every run that gets past the waiting phase and the stream set-up, and whose first
  check of the loop condition finds the gate at Run (1) and the session clock below the
  global time, executes the continuity check of the first pass with \<open>last_ts\<close> still
  unbound: the run ends there with \<open>UnboundLocalError\<close>, after acquiring the first window,
  and no window has reached the per-window code.
\<close>

theorem first_pass_reads_unbound_last_ts:
  assumes "start_reads env = replicate n 2 @ x # g # rest" and "x \<noteq> 2" and "g \<noteq> 0"
    and "find_lsl_stream cfg (found_stream env) = Inr ((amp_name, amp_serial), evs)"
    and "connect_lsl_stream cfg amp_name amp_serial = Inr ev"
    and "iterations env = ob # obs"
    and "gate_val ob = 1"
    and "getattr cfg ''GLOBAL_TIME'' = Inr v" and "as_number v = Some gt" and "sec ob < gt"
  shows "run cfg env =
           (Raised (UnboundLocalError ''last_ts''),
            \<lparr>last_ts = None,
             trace = [RedirectStdout] @ evs @
                     [ev, GetSampleRate, GetTriggerChannel, Acquire, GetWindow]\<rparr>) \<and>
         processed (trace (snd (run cfg env))) = []"
proof -
  obtain w b where ev: "ev = Connect w b amp_serial amp_name"
    using assms(5) by (auto simp: connect_lsl_stream_def split: sum.splits)
  have evs: "processed evs = []"
    using assms(4) by (auto simp: find_lsl_stream_def split: sum.splits if_splits)
  have c: "loop_cond cfg ob = Inr True"
    using assms(7-10) by (simp add: loop_cond_True)
  let ?st = "\<lparr>last_ts = None, trace = [RedirectStdout] @ evs @ [ev, GetSampleRate, GetTriggerChannel]\<rparr>"
  have m: "main_phase cfg env = main_loop cfg (ob # obs) ?st"
    using assms(4-6) by (simp add: main_phase_def entry_state_def Let_def del: main_loop.simps)
  have "main_loop cfg (ob # obs) ?st =
          (Raised (UnboundLocalError ''last_ts''), ?st\<lparr>trace := trace ?st @ [Acquire, GetWindow]\<rparr>)"
    by (rule main_loop_unbound [OF c]) simp
  then have r: "run cfg env =
          (Raised (UnboundLocalError ''last_ts''), ?st\<lparr>trace := trace ?st @ [Acquire, GetWindow]\<rparr>)"
    using run_after_await [OF assms(1,2), of cfg] assms(3) m by simp
  show ?thesis unfolding r by (simp add: processed_append ev evs)
qed

theorem first_pass_reads_unbound_last_ts_witness:
  "run cfg_session env_armed_late =
     (Raised (UnboundLocalError ''last_ts''),
      \<lparr>last_ts = None,
       trace = [RedirectStdout, Connect (PFloat 0.5) (PFloat 1) (PStr ''0001'') (PStr ''fake''),
                GetSampleRate, GetTriggerChannel, Acquire, GetWindow]\<rparr>)"
proof -
  have 1: "start_reads env_armed_late = replicate 2 2 @ 1 # 1 # []"
    by (simp add: env_armed_late_def numeral_2_eq_2)
  have 2: "find_lsl_stream cfg_session (found_stream env_armed_late)
             = Inr ((PStr ''fake'', PStr ''0001''), [])"
    by (simp add: find_lsl_stream_def getattr_def cfg_session_def)
  have 3: "connect_lsl_stream cfg_session (PStr ''fake'') (PStr ''0001'')
             = Inr (Connect (PFloat 0.5) (PFloat 1) (PStr ''0001'') (PStr ''fake''))"
    by (simp add: connect_lsl_stream_def getattr_def cfg_session_def)
  have 4: "iterations env_armed_late = pass 1 0 [1, 2] # [pass 1 0.05 [3, 4]]"
    by (simp add: env_armed_late_def)
  have 5: "gate_val (pass 1 0 [1, 2]) = 1" by (simp add: pass_def)
  have 6: "getattr cfg_session ''GLOBAL_TIME'' = Inr (PFloat 0.2)"
    by (simp add: getattr_def cfg_session_def)
  have 7: "as_number (PFloat 0.2) = Some 0.2" by simp
  have 8: "sec (pass 1 0 [1, 2]) < 0.2" by (simp add: pass_def)
  show ?thesis
    using first_pass_reads_unbound_last_ts [OF 1 _ _ 2 3 4 5 6 7 8] by simp
qed

subsection \<open>The end-to-end scenario\<close>

text \<open>
  C2. The scenario of the specification: global time 0.2, minimum interval 0.05, the gate
  at Run, a window of strictly newer timestamps at every call. The specification expects
  about four windows to reach the per-window code, a normal end at the deadline and exit
  status 0. The code instead raises \<open>UnboundLocalError\<close> in the first pass: no window
  reaches the per-window code and the exit status is 1.
\<close>

theorem scenario_run_raises:
  "run cfg_session env_session =
     (Raised (UnboundLocalError ''last_ts''),
      \<lparr>last_ts = None,
       trace = [RedirectStdout, Connect (PFloat 0.5) (PFloat 1) (PStr ''0001'') (PStr ''fake''),
                GetSampleRate, GetTriggerChannel, Acquire, GetWindow]\<rparr>) \<and>
   processed (trace (snd (run cfg_session env_session))) = [] \<and>
   exit_status (fst (run cfg_session env_session)) = Some 1"
proof -
  have r: "run cfg_session env_session =
     (Raised (UnboundLocalError ''last_ts''),
      \<lparr>last_ts = None,
       trace = [RedirectStdout, Connect (PFloat 0.5) (PFloat 1) (PStr ''0001'') (PStr ''fake''),
                GetSampleRate, GetTriggerChannel, Acquire, GetWindow]\<rparr>)"
    by (simp add: run_def main_phase_def entry_state_def env_session_def cfg_session_def
        find_lsl_stream_def connect_lsl_stream_def getattr_def loop_cond_def loop_body_def pass_def)
  show ?thesis unfolding r by simp
qed

subsection \<open>Accepted windows\<close>


subsection \<open>Waiting for the operator\<close>

text \<open>
  C4. While the gate reads Wait (2) the run stays in the waiting phase: a script of \<open>n\<close>
  readings that are all 2 leaves it there. Once a reading \<open>x\<close> differs from 2 the
  waiting ends and the gate is read again by the check \<open>if not state.value\<close>: if that
  reading \<open>g\<close> is Stop (0), the run leaves through \<open>sys.exit(-1)\<close> before the stream is
  searched or the main loop entered, the exit status is 255, not 0, and no window has
  reached the per-window code. If it is Run (1), the run does not leave through
  \<open>sys.exit\<close>: it searches the stream and connects, ends with the exception of either
  step if one raises, and otherwise is the main loop over the observations, entered
  with \<open>last_ts\<close> unbound after the events of the search, the connection and the two
  queries of the stream.
\<close>

theorem await_start_gate:
  "(start_reads env = replicate n 2 \<longrightarrow> run cfg env = (Pending, entry_state)) \<and>
   (start_reads env = replicate n 2 @ x # g # rest \<and> x \<noteq> 2 \<longrightarrow>
      (g = 0 \<longrightarrow>
         run cfg env = (Exited (- 1), entry_state) \<and>
         exit_status (fst (run cfg env)) = Some 255 \<and>
         exit_status (fst (run cfg env)) \<noteq> Some 0 \<and>
         trace (snd (run cfg env)) = [RedirectStdout] \<and>
         processed (trace (snd (run cfg env))) = []) \<and>
      (g = 1 \<longrightarrow>
         (\<forall>c. fst (run cfg env) \<noteq> Exited c) \<and>
         (\<forall>e. find_lsl_stream cfg (found_stream env) = Inl e \<longrightarrow>
              run cfg env = (Raised e, \<lparr>last_ts = None, trace = [RedirectStdout]\<rparr>)) \<and>
         (\<forall>amp_name amp_serial evs.
            find_lsl_stream cfg (found_stream env) = Inr ((amp_name, amp_serial), evs) \<longrightarrow>
              (\<forall>e. connect_lsl_stream cfg amp_name amp_serial = Inl e \<longrightarrow>
                   run cfg env =
                     (Raised e, \<lparr>last_ts = None, trace = [RedirectStdout] @ evs\<rparr>)) \<and>
              (\<forall>ev. connect_lsl_stream cfg amp_name amp_serial = Inr ev \<longrightarrow>
                   run cfg env =
                     main_loop cfg (iterations env)
                       \<lparr>last_ts = None,
                        trace = [RedirectStdout] @ evs @
                                [ev, GetSampleRate, GetTriggerChannel]\<rparr>))))"
proof -
  have a: "start_reads env = replicate n 2 \<longrightarrow> run cfg env = (Pending, entry_state)"
    by (simp add: run_def await_start_all_wait)
  have b: "run cfg env = (Exited (- 1), entry_state) \<and>
         exit_status (fst (run cfg env)) = Some 255 \<and>
         exit_status (fst (run cfg env)) \<noteq> Some 0 \<and>
         trace (snd (run cfg env)) = [RedirectStdout] \<and>
         processed (trace (snd (run cfg env))) = []"
    if "start_reads env = replicate n 2 @ x # g # rest" "x \<noteq> 2" "g = 0"
    using run_after_await [OF that(1,2), of cfg] that(3) by (simp add: entry_state_def)
  have c: "(\<forall>c. fst (run cfg env) \<noteq> Exited c) \<and>
         (\<forall>e. find_lsl_stream cfg (found_stream env) = Inl e \<longrightarrow>
              run cfg env = (Raised e, \<lparr>last_ts = None, trace = [RedirectStdout]\<rparr>)) \<and>
         (\<forall>amp_name amp_serial evs.
            find_lsl_stream cfg (found_stream env) = Inr ((amp_name, amp_serial), evs) \<longrightarrow>
              (\<forall>e. connect_lsl_stream cfg amp_name amp_serial = Inl e \<longrightarrow>
                   run cfg env =
                     (Raised e, \<lparr>last_ts = None, trace = [RedirectStdout] @ evs\<rparr>)) \<and>
              (\<forall>ev. connect_lsl_stream cfg amp_name amp_serial = Inr ev \<longrightarrow>
                   run cfg env =
                     main_loop cfg (iterations env)
                       \<lparr>last_ts = None,
                        trace = [RedirectStdout] @ evs @
                                [ev, GetSampleRate, GetTriggerChannel]\<rparr>))"
    if "start_reads env = replicate n 2 @ x # g # rest" "x \<noteq> 2" "g = 1"
  proof -
    have r: "run cfg env = main_phase cfg env"
      using run_after_await [OF that(1,2), of cfg] that(3) by simp
    have 1: "fst (main_phase cfg env) \<noteq> Exited c" for c
      by (simp add: main_phase_def Let_def main_loop_no_exit split: sum.splits prod.splits)
    have 2: "main_phase cfg env = (Raised e, \<lparr>last_ts = None, trace = [RedirectStdout]\<rparr>)"
      if "find_lsl_stream cfg (found_stream env) = Inl e" for e
      using that by (simp add: main_phase_def entry_state_def)
    have 3: "main_phase cfg env = (Raised e, \<lparr>last_ts = None, trace = [RedirectStdout] @ evs\<rparr>)"
      if "find_lsl_stream cfg (found_stream env) = Inr ((amp_name, amp_serial), evs)"
        "connect_lsl_stream cfg amp_name amp_serial = Inl e" for amp_name amp_serial evs e
      using that by (simp add: main_phase_def entry_state_def)
    have 4: "main_phase cfg env =
               main_loop cfg (iterations env)
                 \<lparr>last_ts = None,
                  trace = [RedirectStdout] @ evs @ [ev, GetSampleRate, GetTriggerChannel]\<rparr>"
      if "find_lsl_stream cfg (found_stream env) = Inr ((amp_name, amp_serial), evs)"
        "connect_lsl_stream cfg amp_name amp_serial = Inr ev" for amp_name amp_serial evs ev
      using that by (simp add: main_phase_def entry_state_def)
    show ?thesis unfolding r using 1 2 3 4 by blast
  qed
  show ?thesis using a b c by blast
qed

theorem await_start_gate_witness:
  "start_reads env_waiting = replicate 3 2 \<and>
   run cfg_session env_waiting = (Pending, entry_state) \<and>
   start_reads env_never_armed = replicate 2 2 @ 0 # 0 # [] \<and>
   run cfg_session env_never_armed = (Exited (- 1), entry_state) \<and>
   exit_status (fst (run cfg_session env_never_armed)) = Some 255 \<and>
   processed (trace (snd (run cfg_session env_never_armed))) = [] \<and>
   start_reads env_armed_late = replicate 2 2 @ 1 # 1 # [] \<and>
   find_lsl_stream cfg_session (found_stream env_armed_late)
     = Inr ((PStr ''fake'', PStr ''0001''), []) \<and>
   connect_lsl_stream cfg_session (PStr ''fake'') (PStr ''0001'')
     = Inr (Connect (PFloat 0.5) (PFloat 1) (PStr ''0001'') (PStr ''fake'')) \<and>
   run cfg_session env_armed_late =
     main_loop cfg_session (iterations env_armed_late)
       \<lparr>last_ts = None,
        trace = [RedirectStdout, Connect (PFloat 0.5) (PFloat 1) (PStr ''0001'') (PStr ''fake''),
                 GetSampleRate, GetTriggerChannel]\<rparr>"
proof -
  have 0: "start_reads env_waiting = replicate 3 2"
    by (simp add: env_waiting_def numeral_3_eq_3)
  have 1: "start_reads env_never_armed = replicate 2 2 @ 0 # 0 # []"
    by (simp add: env_never_armed_def numeral_2_eq_2)
  have 2: "start_reads env_armed_late = replicate 2 2 @ 1 # 1 # []"
    by (simp add: env_armed_late_def numeral_2_eq_2)
  have 3: "find_lsl_stream cfg_session (found_stream env_armed_late)
             = Inr ((PStr ''fake'', PStr ''0001''), [])"
    by (simp add: find_lsl_stream_def getattr_def cfg_session_def)
  have 4: "connect_lsl_stream cfg_session (PStr ''fake'') (PStr ''0001'')
             = Inr (Connect (PFloat 0.5) (PFloat 1) (PStr ''0001'') (PStr ''fake''))"
    by (simp add: connect_lsl_stream_def getattr_def cfg_session_def)
  have n0: "(0::int) \<noteq> 2" and n1: "(1::int) \<noteq> 2" by simp_all
  note w = await_start_gate [of env_waiting 3 cfg_session]
  note s = await_start_gate [of env_never_armed 2 cfg_session 0 0 "[]"]
  note r = await_start_gate [of env_armed_late 2 cfg_session 1 1 "[]"]
  have a: "run cfg_session env_waiting = (Pending, entry_state)"
    using w 0 by blast
  have b: "run cfg_session env_never_armed = (Exited (- 1), entry_state) \<and>
           exit_status (fst (run cfg_session env_never_armed)) = Some 255 \<and>
           processed (trace (snd (run cfg_session env_never_armed))) = []"
    using s 1 n0 by blast
  have c: "run cfg_session env_armed_late =
     main_loop cfg_session (iterations env_armed_late)
       \<lparr>last_ts = None,
        trace = [RedirectStdout] @ [] @
                [Connect (PFloat 0.5) (PFloat 1) (PStr ''0001'') (PStr ''fake''),
                 GetSampleRate, GetTriggerChannel]\<rparr>"
    using r 2 3 4 n1 by blast
  show ?thesis using 0 1 2 3 4 a b c by (simp add: entry_state_def)
qed

subsection \<open>Leaving the main loop\<close>

text \<open>
  C5. Every pass of the main loop starts with the loop condition: when the gate reads
  Stop (0), or when it reads Run and the reading of the never-reset session timer has
  reached the configured global time, the loop ends before anything is acquired (the
  loop state and its trace are unchanged), \<open>run\<close> returns and the exit status is 0.
\<close>

theorem running_stops_on_stop_or_deadline:
  assumes "gate_val ob = 0 \<or>
           (gate_val ob = 1 \<and> getattr cfg ''GLOBAL_TIME'' = Inr v \<and>
            as_number v = Some gt \<and> gt \<le> sec ob)"
  shows "main_loop cfg (ob # obs) st = (Returned, st) \<and>
         exit_status (fst (main_loop cfg (ob # obs) st)) = Some 0"
proof -
  have "loop_cond cfg ob = Inr False"
    using assms by (auto simp: loop_cond_def)
  then show ?thesis by (simp add: main_loop_stops)
qed

theorem running_stops_on_stop_or_deadline_witness:
  "gate_val (pass 1 0.2 [9, 10]) = 1 \<and>
   getattr cfg_session ''GLOBAL_TIME'' = Inr (PFloat 0.2) \<and>
   as_number (PFloat 0.2) = Some 0.2 \<and> (0.2::real) \<le> sec (pass 1 0.2 [9, 10]) \<and>
   main_loop cfg_session [pass 1 0.2 [9, 10], pass 1 0.25 [11, 12]] (st_bound 8)
     = (Returned, st_bound 8) \<and>
   gate_val (pass 0 0.1 [5, 6]) = 0 \<and>
   main_loop cfg_session [pass 0 0.1 [5, 6], pass 1 0.15 [7, 8]] (st_bound 4)
     = (Returned, st_bound 4)"
proof -
  have 1: "gate_val (pass 1 0.2 [9, 10]) = 1 \<and>
     getattr cfg_session ''GLOBAL_TIME'' = Inr (PFloat 0.2) \<and>
     as_number (PFloat 0.2) = Some 0.2 \<and> (0.2::real) \<le> sec (pass 1 0.2 [9, 10])"
    by (simp add: pass_def getattr_def cfg_session_def)
  have 2: "gate_val (pass 0 0.1 [5, 6]) = 0" by (simp add: pass_def)
  show ?thesis
    using 1 2
      running_stops_on_stop_or_deadline [where ob = "pass 1 0.2 [9, 10]" and cfg = cfg_session
        and v = "PFloat 0.2" and gt = "0.2" and obs = "[pass 1 0.25 [11, 12]]"
        and st = "st_bound 8"]
      running_stops_on_stop_or_deadline [where ob = "pass 0 0.1 [5, 6]" and cfg = cfg_session
        and v = "PFloat 0.2" and gt = "0.2" and obs = "[pass 1 0.15 [7, 8]]"
        and st = "st_bound 4"]
    by (simp del: main_loop.simps)
qed

text \<open>
  C9. A pass of the main loop executes its body only when the gate reads exactly Run (1).
  A reading of Wait (2) ends the loop exactly as a reading of Stop (0) does: \<open>run\<close>
  returns at once, whatever the later observations are (so there is no pause and
  resume), the loop state is untouched and the exit status is 0.
\<close>

theorem running_requires_gate_run:
  "(loop_cond cfg ob = Inr True \<longrightarrow> gate_val ob = 1) \<and>
   (gate_val ob \<noteq> 1 \<longrightarrow>
      main_loop cfg (ob # obs) st = (Returned, st) \<and>
      exit_status (fst (main_loop cfg (ob # obs) st)) = Some 0) \<and>
   (gate_val ob = 2 \<longrightarrow>
      main_loop cfg (ob # obs) st = (Returned, st) \<and>
      main_loop cfg (ob # obs) st = main_loop cfg (ob\<lparr>gate_val := 0\<rparr> # obs') st)"
proof -
  have a: "loop_cond cfg ob = Inr True \<longrightarrow> gate_val ob = 1"
    by (simp add: loop_cond_True)
  have b: "loop_cond cfg ob = Inr False" if "gate_val ob \<noteq> 1"
    using that by (simp add: loop_cond_def)
  have c: "loop_cond cfg (ob\<lparr>gate_val := 0\<rparr>) = Inr False"
    by (simp add: loop_cond_def)
  show ?thesis using a b c by (auto simp: main_loop_stops)
qed

theorem running_requires_gate_run_witness:
  "gate_val (pass 2 0.1 [5, 6]) = 2 \<and>
   main_loop cfg_session [pass 2 0.1 [5, 6], pass 1 0.15 [7, 8]] (st_bound 4)
     = (Returned, st_bound 4) \<and>
   main_loop cfg_session [pass 2 0.1 [5, 6], pass 1 0.15 [7, 8]] (st_bound 4)
     = main_loop cfg_session [pass 0 0.1 [5, 6]] (st_bound 4)"
proof -
  have 1: "gate_val (pass 2 0.1 [5, 6]) = 2" by (simp add: pass_def)
  have 2: "(pass 2 0.1 [5, 6])\<lparr>gate_val := 0\<rparr> = pass 0 0.1 [5, 6]" by (simp add: pass_def)
  note t = running_requires_gate_run [where cfg = cfg_session and ob = "pass 2 0.1 [5, 6]"
        and obs = "[pass 1 0.15 [7, 8]]" and st = "st_bound 4" and obs' = "[]"]
  from t 1 have a: "main_loop cfg_session [pass 2 0.1 [5, 6], pass 1 0.15 [7, 8]] (st_bound 4)
      = (Returned, st_bound 4)"
    by blast
  from t 1 have b: "main_loop cfg_session [pass 2 0.1 [5, 6], pass 1 0.15 [7, 8]] (st_bound 4)
      = main_loop cfg_session [(pass 2 0.1 [5, 6])\<lparr>gate_val := 0\<rparr>] (st_bound 4)"
    by blast
  show ?thesis using 1 a b [unfolded 2] by blast
qed

subsection \<open>Windows without new data\<close>


subsection \<open>Choosing the stream\<close>

text \<open>
  C7, as amended. For a configuration that has the attributes \<open>AMP_NAME\<close> and
  \<open>AMP_SERIAL\<close>: if at least one of them is not \<open>None\<close>, \<open>find_lsl_stream\<close> returns the
  configured pair unchanged and makes no scan; only if both are \<open>None\<close> does it call the
  stream search, with marker streams ignored, and return what the search found.
\<close>

theorem find_lsl_stream_scans_iff_both_None:
  assumes "getattr cfg ''AMP_NAME'' = Inr n" and "getattr cfg ''AMP_SERIAL'' = Inr s"
  shows "find_lsl_stream cfg found =
           (if n = PNone \<and> s = PNone then Inr (found, [SearchLSL True])
            else Inr ((n, s), []))"
  using assms by (simp add: find_lsl_stream_def)

theorem find_lsl_stream_scans_iff_both_None_witness:
  "getattr cfg_both ''AMP_NAME'' = Inr (PStr ''openvibe'') \<and>
   getattr cfg_both ''AMP_SERIAL'' = Inr (PStr ''0001'') \<and>
   find_lsl_stream cfg_both (PStr ''found'', PStr ''9999'')
     = Inr ((PStr ''openvibe'', PStr ''0001''), []) \<and>
   getattr cfg_no_amp ''AMP_NAME'' = Inr PNone \<and>
   getattr cfg_no_amp ''AMP_SERIAL'' = Inr PNone \<and>
   find_lsl_stream cfg_no_amp (PStr ''found'', PStr ''9999'')
     = Inr ((PStr ''found'', PStr ''9999''), [SearchLSL True])"
proof -
  have 1: "getattr cfg_both ''AMP_NAME'' = Inr (PStr ''openvibe'')"
    and 2: "getattr cfg_both ''AMP_SERIAL'' = Inr (PStr ''0001'')"
    by (simp_all add: getattr_def cfg_both_def)
  have 3: "getattr cfg_no_amp ''AMP_NAME'' = Inr PNone"
    and 4: "getattr cfg_no_amp ''AMP_SERIAL'' = Inr PNone"
    by (simp_all add: getattr_def cfg_no_amp_def)
  show ?thesis
    using 1 2 3 4
      find_lsl_stream_scans_iff_both_None [OF 1 2, of "(PStr ''found'', PStr ''9999'')"]
      find_lsl_stream_scans_iff_both_None [OF 3 4, of "(PStr ''found'', PStr ''9999'')"]
    by simp
qed

text \<open>
  The claim as first stated fails for a configuration that supplies the name alone: it
  does not supply both, yet no scan is made and the pair is returned with its serial
  \<open>None\<close>.
\<close>

theorem find_lsl_stream_name_only_counterexample:
  "getattr cfg_name_only ''AMP_NAME'' = Inr (PStr ''openvibe'') \<and>
   getattr cfg_name_only ''AMP_SERIAL'' = Inr PNone \<and>
   find_lsl_stream cfg_name_only (PStr ''found'', PStr ''9999'')
     = Inr ((PStr ''openvibe'', PNone), []) \<and>
   find_lsl_stream cfg_name_only (PStr ''found'', PStr ''9999'')
     \<noteq> Inr ((PStr ''found'', PStr ''9999''), [SearchLSL True])"
  by (simp add: find_lsl_stream_def getattr_def cfg_name_only_def)

subsection \<open>Validating the configuration\<close>

text \<open>
  C8. \<open>check_config\<close> raises (\<open>RuntimeError\<close>) exactly when \<open>DATA_PATH\<close> is missing and
  completes normally otherwise. When it completes, each of \<open>AMP_NAME\<close>, \<open>AMP_SERIAL\<close>,
  \<open>GLOBAL_TIME\<close> and \<open>NJOBS\<close> that was missing now has its default (\<open>None\<close>, \<open>None\<close>, 60.0
  and 1) and a warning naming the field and the default was logged. Warnings are logged
  for missing fields only, and every attribute the configuration had keeps its value.
\<close>

theorem check_config_required_and_defaults:
  "(fst (check_config cfg) = Inl RuntimeError \<longleftrightarrow> \<not> hasattr cfg ''DATA_PATH'') \<and>
   (fst (check_config cfg) = Inr () \<longleftrightarrow> hasattr cfg ''DATA_PATH'') \<and>
   (hasattr cfg ''DATA_PATH'' \<longrightarrow>
      (\<forall>(key, dflt) \<in> {(''AMP_NAME'', PNone), (''AMP_SERIAL'', PNone),
                         (''GLOBAL_TIME'', PFloat 60), (''NJOBS'', PInt 1)}.
         \<not> hasattr cfg key \<longrightarrow>
           fst (snd (check_config cfg)) key = Some dflt \<and>
           Log WARNING (SettingUndefined key dflt) \<in> set (snd (snd (check_config cfg))))) \<and>
   (\<forall>key v. Log WARNING (SettingUndefined key v) \<in> set (snd (snd (check_config cfg)))
       \<longrightarrow> \<not> hasattr cfg key) \<and>
   (\<forall>key. hasattr cfg key \<longrightarrow> fst (snd (check_config cfg)) key = cfg key)"
proof (cases "hasattr cfg ''DATA_PATH''")
  case True
  note ok = check_config_ok [OF True]
  have set: "\<And>key dflt. (key, dflt) \<in> set optional_vars \<Longrightarrow> \<not> hasattr cfg key \<Longrightarrow>
      fst (snd (check_config cfg)) key = Some dflt \<and>
      Log WARNING (SettingUndefined key dflt) \<in> set (snd (snd (check_config cfg)))"
    using set_optional_sets [OF _ optional_vars_distinct, of _ _ cfg "[]"] by (simp add: ok)
  have warn: "\<And>key v. Log WARNING (SettingUndefined key v) \<in> set (snd (snd (check_config cfg)))
      \<Longrightarrow> \<not> hasattr cfg key"
    using set_optional_warns_missing [of _ _ optional_vars cfg "[]"] by (simp add: ok)
  have keep: "\<And>key. hasattr cfg key \<Longrightarrow> fst (snd (check_config cfg)) key = cfg key"
    using set_optional_keeps [of cfg _ optional_vars "[]"] by (simp add: ok)
  have mem: "(''AMP_NAME'', PNone) \<in> set optional_vars" "(''AMP_SERIAL'', PNone) \<in> set optional_vars"
    "(''GLOBAL_TIME'', PFloat 60) \<in> set optional_vars" "(''NJOBS'', PInt 1) \<in> set optional_vars"
    by (simp_all add: optional_vars_def)
  show ?thesis using True set [OF mem(1)] set [OF mem(2)] set [OF mem(3)] set [OF mem(4)] warn keep
    by (simp add: ok)
next
  case False
  then show ?thesis by (simp add: check_config_raise)
qed

theorem check_config_required_and_defaults_witness:
  "hasattr cfg_partial ''DATA_PATH'' \<and> hasattr cfg_partial ''NJOBS'' \<and>
   \<not> hasattr cfg_partial ''GLOBAL_TIME'' \<and>
   fst (check_config cfg_partial) = Inr () \<and>
   fst (snd (check_config cfg_partial)) ''GLOBAL_TIME'' = Some (PFloat 60) \<and>
   Log WARNING (SettingUndefined ''GLOBAL_TIME'' (PFloat 60)) \<in> set (snd (snd (check_config cfg_partial))) \<and>
   fst (snd (check_config cfg_partial)) ''NJOBS'' = Some (PInt 4)"
proof -
  have h: "hasattr cfg_partial ''DATA_PATH''" "hasattr cfg_partial ''NJOBS''"
    "\<not> hasattr cfg_partial ''GLOBAL_TIME''" "cfg_partial ''NJOBS'' = Some (PInt 4)"
    by (simp_all add: hasattr_def cfg_partial_def)
  show ?thesis using h check_config_required_and_defaults [of cfg_partial] by simp
qed

text \<open>
  C10. When \<open>DATA_PATH\<close> is missing, \<open>check_config\<close> raises in its first loop: the only
  effect is the error message, and the configuration object is left exactly as it was;
  no default has been substituted.
\<close>

theorem check_config_failure_atomic:
  "\<not> hasattr cfg ''DATA_PATH'' \<Longrightarrow>
   check_config cfg = (Inl RuntimeError, cfg, [Log ERROR (Required ''DATA_PATH'')])"
  by (rule check_config_raise)

theorem check_config_failure_atomic_witness:
  "\<not> hasattr cfg_no_path ''DATA_PATH'' \<and>
   check_config cfg_no_path = (Inl RuntimeError, cfg_no_path, [Log ERROR (Required ''DATA_PATH'')]) \<and>
   \<not> hasattr (fst (snd (check_config cfg_no_path))) ''GLOBAL_TIME''"
proof -
  have h: "\<not> hasattr cfg_no_path ''DATA_PATH''" by (simp add: hasattr_def cfg_no_path_def)
  have g: "\<not> hasattr cfg_no_path ''GLOBAL_TIME''" by (simp add: hasattr_def cfg_no_path_def)
  show ?thesis using h g check_config_failure_atomic [OF h] by simp
qed

end
